theory Spec2Isabelle
  imports Main
begin

section \<open>JavaScript strings, indexing and slicing\<close>

text \<open>
  The editor of \<^verbatim>\<open>src/Editor.js\<close> keeps its text in a JavaScript string and its
  cursor in a JavaScript number that only ever holds integers. The string is a
  \<^typ>\<open>string\<close>, the cursor an \<^typ>\<open>int\<close>. A backslash cannot be written inside a
  string literal, so it gets a name of its own.
\<close>

abbreviation backslash :: char where
  "backslash \<equiv> CHR 0x5C"

text \<open>
  \<^verbatim>\<open>value[i]\<close>: the character at index \<open>i\<close>, and \<^verbatim>\<open>undefined\<close> (here \<open>None\<close>)
  for a negative index and for an index at or past the length.
\<close>

definition idx :: "string \<Rightarrow> int \<Rightarrow> char option" where
  "idx v i = (if 0 \<le> i \<and> i < int (length v) then Some (v ! nat i) else None)"

text \<open>
  \<^verbatim>\<open>String.prototype.slice\<close> clamps its arguments: a negative index counts from
  the end of the string and stops at 0, any other index stops at the length.
\<close>

definition relIndex :: "nat \<Rightarrow> int \<Rightarrow> nat" where
  "relIndex len k = (if k < 0 then nat (max (int len + k) 0) else min (nat k) len)"

text \<open>\<^verbatim>\<open>s.slice(b, e)\<close>; empty when the clamped start is not before the clamped end.\<close>

definition slice :: "string \<Rightarrow> int \<Rightarrow> int \<Rightarrow> string" where
  "slice s b e =
     (let from = relIndex (length s) b; to = relIndex (length s) e
      in take (to - from) (drop from s))"

text \<open>\<^verbatim>\<open>s.slice(b)\<close>: from the clamped start to the end of the string.\<close>

definition sliceFrom :: "string \<Rightarrow> int \<Rightarrow> string" where
  "sliceFrom s b = drop (relIndex (length s) b) s"

text \<open>
  Modelled from the spec: \<^verbatim>\<open>insertBetween\<close> is imported from \<^verbatim>\<open>./utils\<close>, which is
  not among the sources. The specification describes it as the primitive that splices
  a fragment into the text at an offset ("text is spliced in at cursor"), and at index
  0 when the offset is the sentinel.
\<close>

definition insertBetween :: "string \<Rightarrow> int \<Rightarrow> string \<Rightarrow> string" where
  "insertBetween string index fragment =
     (if index < 0 then fragment @ string
      else take (nat index) string @ fragment @ drop (nat index) string)"

section \<open>The editor\<close>

text \<open>
  The two fields of \<^verbatim>\<open>Editor\<close> that the operations read and write: \<^verbatim>\<open>this.value\<close>
  (here \<open>val\<close>) and \<^verbatim>\<open>this.cursor\<close>. The DOM elements and the MathJax queue only
  display them, so \<^verbatim>\<open>updateDebug\<close> changes nothing in this state.
\<close>

record editor =
  val :: string
  cursor :: int

text \<open>The constructor: \<^verbatim>\<open>this.cursor = 0; this.value = ''\<close>.\<close>

definition initial :: editor where
  "initial = \<lparr>val = [], cursor = 0\<rparr>"

text \<open>The object \<^verbatim>\<open>{ start, end }\<close> that \<^verbatim>\<open>findCommandAt\<close> returns. \<^verbatim>\<open>start\<close> stays
  \<^verbatim>\<open>null\<close> when no backslash is found; \<^verbatim>\<open>end\<close> (here \<open>finish\<close>) is always a number
  on return.\<close>

record coordinates =
  start :: "int option"
  finish :: int

subsection \<open>The loops\<close>

text \<open>
  \<^verbatim>\<open>while (i--) { if (value[i] === '\\') break; }\<close>
  The test reads \<open>i\<close> and then decrements it, so the loop is left with \<open>i - 1\<close> when
  \<open>i\<close> was 0, and the body sees the decremented counter. The result is whether the
  loop was left by \<^verbatim>\<open>break\<close>, and the final counter. Started on a negative counter the
  loop never ends: every negative number is truthy and \<^verbatim>\<open>value[i]\<close> is undefined there.
\<close>

partial_function (option) backScan :: "string \<Rightarrow> int \<Rightarrow> (bool \<times> int) option" where
  "backScan v i =
     (if i = 0 then Some (False, i - 1)
      else if idx v (i - 1) = Some backslash then Some (True, i - 1)
      else backScan v (i - 1))"

text \<open>
  \<^verbatim>\<open>while (i++ < length) { if (value[i] === '{') break; }\<close>
  The test compares the old counter and then increments it; the result is the final
  counter.
\<close>

function braceScan :: "string \<Rightarrow> int \<Rightarrow> int" where
  "braceScan v i =
     (if i < int (length v)
      then (if idx v (i + 1) = Some CHR ''{'' then i + 1 else braceScan v (i + 1))
      else i + 1)"
  by pat_completeness auto
termination
  by (relation "measure (\<lambda>(v, i). nat (int (length v) - i))") auto

declare braceScan.simps [simp del]

text \<open>
  \<^verbatim>\<open>while (i++ < value.length) { if (value[i] === '}' && value[i + 1] !== '{') { coordinates.end = i; break; } }\<close>
  The result is \<^verbatim>\<open>coordinates.end\<close> (still \<^verbatim>\<open>null\<close> when the loop ran out) and the final
  counter.
\<close>

function closeScan :: "string \<Rightarrow> int \<Rightarrow> int option \<times> int" where
  "closeScan v i =
     (if i < int (length v)
      then (if idx v (i + 1) = Some CHR ''}'' \<and> idx v (i + 1 + 1) \<noteq> Some CHR ''{''
            then (Some (i + 1), i + 1)
            else closeScan v (i + 1))
      else (None, i + 1))"
  by pat_completeness auto
termination
  by (relation "measure (\<lambda>(v, i). nat (int (length v) - i))") auto

declare closeScan.simps [simp del]

subsection \<open>Operations\<close>

text \<open>
  \<^verbatim>\<open>updateCursor(amount)\<close>. \<open>None\<close> stands for the backward loop not returning.
\<close>

definition updateCursor :: "int \<Rightarrow> editor \<Rightarrow> editor option" where
  "updateCursor amount s =
     (let next = cursor s + amount;
          current = cursor s;
          v = val s;
          moved_left =
            (if amount < 0 \<and> idx v next = Some CHR ''{''
             then map_option snd (backScan v next)
             else Some next)
      in case moved_left of
           None \<Rightarrow> None
         | Some next1 \<Rightarrow>
             (if amount > 0
              then (let next2 = (if idx v current = Some backslash
                                 then braceScan v next1 + 1 else next1);
                        next3 = (if idx v next2 = Some CHR ''{'' then next2 + 1 else next2)
                    in Some (s\<lparr>cursor := next3\<rparr>))
              else Some (s\<lparr>cursor := next1\<rparr>)))"

text \<open>\<^verbatim>\<open>findCommandAt(position)\<close>.\<close>

definition findCommandAt :: "int \<Rightarrow> editor \<Rightarrow> coordinates option" where
  "findCommandAt position s =
     (let v = val s;
          previous = position - 1;
          next = position + 1
      in case backScan v next of
           None \<Rightarrow> None
         | Some (found, i) \<Rightarrow>
             (case closeScan v previous of
                (Some e, _) \<Rightarrow> Some \<lparr>start = (if found then Some i else None), finish = e\<rparr>
              | (None, j) \<Rightarrow> Some \<lparr>start = (if found then Some i else None), finish = j\<rparr>))"

text \<open>\<^verbatim>\<open>insert(value)\<close>, here \<open>insert_text\<close>.\<close>

definition insert_text :: "string \<Rightarrow> editor \<Rightarrow> editor" where
  "insert_text text s =
     (let c = cursor s; current = val s
      in if c = - 1
         then \<lparr>val = text @ current, cursor = c + int (length text)\<rparr>
         else \<lparr>val = insertBetween current c text, cursor = c + int (length text)\<rparr>)"

text \<open>
  \<^verbatim>\<open>insertCommand(command, blockCount)\<close>. \<^verbatim>\<open>'{}'.repeat(n)\<close> throws a RangeError for
  a negative count; by then \<^verbatim>\<open>insert\<close> has already changed the editor, so the error
  comes with the state it leaves behind.
\<close>

datatype error = RangeError

definition insertCommand :: "string \<Rightarrow> int \<Rightarrow> editor \<Rightarrow> (error \<times> editor) + editor" where
  "insertCommand command blockCount s =
     (let s1 = insert_text (command @ ''{'') s;
          v = val s1;
          c = cursor s1
      in if blockCount - 1 < 0 then Inl (RangeError, s1)
         else (let blocks = ''}'' @ concat (replicate (nat (blockCount - 1)) ''{}'')
               in Inr (s1\<lparr>val := insertBetween v c blocks\<rparr>)))"

text \<open>
  \<^verbatim>\<open>erase()\<close>. \<^verbatim>\<open>~['{', '}'].indexOf(value[previous])\<close> is truthy exactly when
  \<^verbatim>\<open>value[previous]\<close> is one of the two braces. \<^verbatim>\<open>value.slice(0, null)\<close> is
  \<^verbatim>\<open>value.slice(0, 0)\<close>.
\<close>

definition erase :: "editor \<Rightarrow> editor option" where
  "erase s =
     (let current = cursor s;
          previous = cursor s - 1;
          v = val s;
          parts =
            (if idx v previous = Some CHR ''{'' \<or> idx v previous = Some CHR ''}''
             then map_option
                    (\<lambda>co. (slice v 0 (case start co of None \<Rightarrow> 0 | Some k \<Rightarrow> k),
                           sliceFrom v (finish co + 1)))
                    (findCommandAt current s)
             else Some (slice v 0 (current - 1), sliceFrom v current))
      in case parts of
           None \<Rightarrow> None
         | Some (before, after) \<Rightarrow> Some \<lparr>val = before @ after, cursor = int (length before)\<rparr>)"

text \<open>
  \<^verbatim>\<open>handleInput(which, char)\<close>. \<^verbatim>\<open>which\<close> is a key code or \<^verbatim>\<open>null\<close>, \<^verbatim>\<open>char\<close> a string
  or absent. The result pairs what \<^verbatim>\<open>console.warn\<close> was given with the new state.
\<close>

definition KEY_BACKSPACE :: int where "KEY_BACKSPACE = 8"
definition KEY_LEFT :: int where "KEY_LEFT = 37"
definition KEY_RIGHT :: int where "KEY_RIGHT = 39"

datatype diagnostic = KeyPressed int

definition handleInput :: "int option \<Rightarrow> string option \<Rightarrow> editor \<Rightarrow> (diagnostic list \<times> editor) option" where
  "handleInput which char s =
     (if which = Some KEY_LEFT
      then (if cursor s > 0 then map_option (Pair []) (updateCursor (- 1) s) else Some ([], s))
      else if which = Some KEY_RIGHT
      then (if cursor s < int (length (val s))
            then map_option (Pair []) (updateCursor 1 s) else Some ([], s))
      else if which = Some KEY_BACKSPACE
      then map_option (Pair []) (erase s)
      else (let warned = (case which of None \<Rightarrow> [] | Some k \<Rightarrow> if k = 0 then [] else [KeyPressed k])
            in case char of
                 None \<Rightarrow> Some (warned, s)
               | Some text \<Rightarrow> if text = [] then Some (warned, s)
                              else Some (warned, insert_text text s)))"

section \<open>Predicates of the specification\<close>

text \<open>
  Index \<open>j\<close> holds a closing brace that is not directly followed by an opening one:
  the test of the forward loop of \<^verbatim>\<open>findCommandAt\<close>.
\<close>

definition closes :: "string \<Rightarrow> int \<Rightarrow> bool" where
  "closes v j = (idx v j = Some CHR ''}'' \<and> idx v (j + 1) \<noteq> Some CHR ''{'')"

text \<open>
  A character that can stand between the backslash of a command and the opening brace
  of its first block: anything but a backslash and an opening brace.
\<close>

definition isNameChar :: "char \<Rightarrow> bool" where
  "isNameChar c = (c \<noteq> backslash \<and> c \<noteq> CHR ''{'')"

text \<open>
  Going back from offset \<open>n\<close> over name characters, the first other character is a
  backslash.
\<close>

definition afterBackslash :: "string \<Rightarrow> nat \<Rightarrow> bool" where
  "afterBackslash v n =
     (case dropWhile isNameChar (rev (take n v)) of [] \<Rightarrow> False | c # _ \<Rightarrow> c = backslash)"



text \<open>
  Index \<open>b\<close> holds the opening brace of a command block: a brace that follows a
  backslash and a name of at least one character.
\<close>

definition opensBlock :: "string \<Rightarrow> int \<Rightarrow> bool" where
  "opensBlock v b =
     (idx v b = Some CHR ''{'' \<and> afterBackslash v (nat b)
      \<and> takeWhile isNameChar (rev (take (nat b) v)) \<noteq> [])"


section \<open>Reading a character\<close>

lemma idx_Some: "idx v i = Some c \<longleftrightarrow> 0 \<le> i \<and> nat i < length v \<and> v ! nat i = c"
  by (auto simp: idx_def)

lemma idx_in: "0 \<le> i \<Longrightarrow> nat i < length v \<Longrightarrow> idx v i = Some (v ! nat i)"
  by (auto simp: idx_def)

lemma idx_bounds: "idx v i = Some c \<Longrightarrow> 0 \<le> i \<and> i < int (length v)"
  by (auto simp: idx_def split: if_splits)


lemma idx_append_length: "idx (xs @ x # ys) (int (length xs)) = Some x"
  by (simp add: idx_def)

section \<open>The loops return, and what they return\<close>

lemma backScan_0: "backScan v 0 = Some (False, - 1)"
  by (subst backScan.simps) simp

lemma backScan_step:
  "i \<noteq> 0 \<Longrightarrow> backScan v i =
     (if idx v (i - 1) = Some backslash then Some (True, i - 1) else backScan v (i - 1))"
  by (subst backScan.simps) simp

lemma backScan_nat:
  "\<exists>found r. backScan v (int n) = Some (found, r) \<and> - 1 \<le> r \<and> r < int n
      \<and> (found \<longrightarrow> 0 \<le> r \<and> idx v r = Some backslash)
      \<and> (\<not> found \<longrightarrow> r = - 1)
      \<and> (\<forall>j. r < j \<and> j < int n \<longrightarrow> idx v j \<noteq> Some backslash)"
proof (induction n)
  case 0
  show ?case by (auto simp: backScan_0)
next
  case (Suc n)
  have step: "backScan v (int (Suc n)) =
     (if idx v (int n) = Some backslash then Some (True, int n) else backScan v (int n))"
    using backScan_step[of "int (Suc n)" v] by simp
  show ?case
  proof (cases "idx v (int n) = Some backslash")
    case True
    then have "backScan v (int (Suc n)) = Some (True, int n)"
      using step by simp
    moreover have "\<forall>j. int n < j \<and> j < int (Suc n) \<longrightarrow> idx v j \<noteq> Some backslash"
      by auto
    ultimately show ?thesis using True by (intro exI[of _ True] exI[of _ "int n"]) simp
  next
    case False
    from Suc obtain found r where a: "backScan v (int n) = Some (found, r)" "- 1 \<le> r" "r < int n"
      "found \<longrightarrow> 0 \<le> r \<and> idx v r = Some backslash" "\<not> found \<longrightarrow> r = - 1"
      "\<forall>j. r < j \<and> j < int n \<longrightarrow> idx v j \<noteq> Some backslash" by blast
    have b: "backScan v (int (Suc n)) = Some (found, r)"
      using False a(1) step by simp
    have c: "\<forall>j. r < j \<and> j < int (Suc n) \<longrightarrow> idx v j \<noteq> Some backslash"
    proof (intro allI impI)
      fix j assume "r < j \<and> j < int (Suc n)"
      then have "j = int n \<or> (r < j \<and> j < int n)" by auto
      then show "idx v j \<noteq> Some backslash" using False a(6) by auto
    qed
    show ?thesis using a b c by (intro exI[of _ found] exI[of _ r]) simp
  qed
qed

text \<open>The backward loop returns only from a counter that is not negative.\<close>

lemma backScan_Some_nonneg:
  assumes "backScan v i = Some y"
  shows "0 \<le> i"
proof (induction v i y rule: backScan.raw_induct)
  case (1 f v i y)
  from 1 have body: "(if i = 0 then Some (False, i - 1)
        else if idx v (i - 1) = Some backslash then Some (True, i - 1)
        else f v (i - 1)) = Some y" by simp
  show ?case
  proof (cases "i = 0 \<or> idx v (i - 1) = Some backslash")
    case True
    then show ?thesis using idx_bounds[of v "i - 1" backslash] by auto
  next
    case False
    then have a: "f v (i - 1) = Some y" using body by simp
    from 1 a have "0 \<le> i - 1" by blast
    then show ?thesis by simp
  qed
qed (rule assms)

lemma backScan_negative: "i < 0 \<Longrightarrow> backScan v i = None"
  using backScan_Some_nonneg[of v i] by (cases "backScan v i") auto

lemma findCommandAt_negative: "position < - 1 \<Longrightarrow> findCommandAt position s = None"
  by (simp add: findCommandAt_def backScan_negative)

lemma closes_out: "int (length v) \<le> j \<Longrightarrow> \<not> closes v j"
  by (simp add: closes_def idx_def)

lemma closeScan_spec:
  "closeScan v i = (e, j) \<Longrightarrow>
     i < j \<and> (\<forall>k. i < k \<and> k < j \<longrightarrow> \<not> closes v k) \<and>
     (case e of Some k \<Rightarrow> k = j \<and> closes v j
              | None \<Rightarrow> j = max i (int (length v)) + 1 \<and> (\<forall>k. i < k \<longrightarrow> \<not> closes v k))"
proof (induction v i arbitrary: e j rule: closeScan.induct)
  case (1 v i)
  show ?case
  proof (cases "i < int (length v)")
    case False
    then have "closeScan v i = (None, i + 1)" by (subst closeScan.simps) simp
    with "1.prems" have "e = None" "j = i + 1" by auto
    then show ?thesis using False by (auto simp: closes_out)
  next
    case True
    show ?thesis
    proof (cases "closes v (i + 1)")
      case c: True
      then have "closeScan v i = (Some (i + 1), i + 1)" using True by (subst closeScan.simps) (simp add: closes_def)
      with "1.prems" have "e = Some (i + 1)" "j = i + 1" by auto
      then show ?thesis using c by auto
    next
      case c: False
      then have r: "closeScan v i = closeScan v (i + 1)" using True
        by (subst closeScan.simps) (auto simp: closes_def)
      have ih: "i + 1 < j \<and> (\<forall>k. i + 1 < k \<and> k < j \<longrightarrow> \<not> closes v k) \<and>
         (case e of Some k \<Rightarrow> k = j \<and> closes v j
              | None \<Rightarrow> j = max (i + 1) (int (length v)) + 1 \<and> (\<forall>k. i + 1 < k \<longrightarrow> \<not> closes v k))"
        using "1.IH"[of e j] True c r "1.prems" by (auto simp: closes_def)
      have all: "\<forall>k. i < k \<and> k < j \<longrightarrow> \<not> closes v k"
      proof (intro allI impI)
        fix k assume "i < k \<and> k < j"
        then have "k = i + 1 \<or> (i + 1 < k \<and> k < j)" by auto
        then show "\<not> closes v k" using c ih by auto
      qed
      show ?thesis
      proof (cases e)
        case (Some k)
        then show ?thesis using ih all by auto
      next
        case None
        have "\<forall>k. i < k \<longrightarrow> \<not> closes v k"
        proof (intro allI impI)
          fix k assume "i < k"
          then have "k = i + 1 \<or> i + 1 < k" by auto
          then show "\<not> closes v k" using c ih None by auto
        qed
        then show ?thesis using ih all None True by auto
      qed
    qed
  qed
qed

section \<open>Evaluation on the examples of the source\<close>

lemma findCommandAt_sqrt:
  "findCommandAt 3 \<lparr>val = backslash # ''sqrt{2}'', cursor = 0\<rparr>
     = Some \<lparr>start = Some 0, finish = 7\<rparr>"
  by (simp add: findCommandAt_def backScan.simps closeScan.simps idx_def)

section \<open>Moving left off an opening brace\<close>

lemma backScan_none:
  assumes "backslash \<notin> set (take n v)"
  shows "backScan v (int n) = Some (False, - 1)"
proof -
  obtain found r where a: "backScan v (int n) = Some (found, r)" "r < int n"
      "found \<longrightarrow> 0 \<le> r \<and> idx v r = Some backslash" "\<not> found \<longrightarrow> r = - 1"
    using backScan_nat[of v n] by blast
  have "\<not> found"
  proof
    assume f: found
    then have r: "0 \<le> r" "idx v r = Some backslash" using a(3) by auto
    then have "nat r < length v" "v ! nat r = backslash"
      by (auto simp: idx_def split: if_splits)
    moreover have "nat r < n" using a(2) r(1) by linarith
    ultimately have "backslash \<in> set (take n v)"
      by (metis in_set_conv_nth length_take min_less_iff_conj nth_take)
    then show False using assms by simp
  qed
  then show ?thesis using a by simp
qed

text \<open>
  Claim C10. From a cursor \<open>c \<ge> 1\<close>, when the move to the left lands on an opening
  brace (the character at \<open>c - 1\<close>) and no backslash occurs before that brace, the
  backward loop runs past index 0 and the cursor becomes the sentinel \<open>- 1\<close>; it is not
  clamped to 0.
\<close>

theorem updateCursor_left_sentinel:
  assumes "1 \<le> cursor s"
    and "idx (val s) (cursor s - 1) = Some CHR ''{''"
    and "backslash \<notin> set (take (nat (cursor s - 1)) (val s))"
  shows "updateCursor (- 1) s = Some (s\<lparr>cursor := - 1\<rparr>)"
proof -
  have "backScan (val s) (int (nat (cursor s - 1))) = Some (False, - 1)"
    using assms(3) by (rule backScan_none)
  then have "backScan (val s) (cursor s - 1) = Some (False, - 1)"
    using assms(1) by simp
  then show ?thesis using assms(2) by (simp add: updateCursor_def)
qed

theorem updateCursor_left_sentinel_witness:
  "updateCursor (- 1) \<lparr>val = ''a{'', cursor = 2\<rparr> = Some \<lparr>val = ''a{'', cursor = - 1\<rparr>"
  using updateCursor_left_sentinel [of "\<lparr>val = ''a{'', cursor = 2\<rparr>"]
  by (simp add: idx_def)

section \<open>Unrecognised keys\<close>

text \<open>
  Claim C9. An input whose key code is none of left arrow, right arrow and backspace
  and that carries no typed character (absent or empty) leaves the text and the cursor
  as they were; the only effect is the warning, given for a key code that is truthy.
\<close>

theorem handleInput_unrecognized:
  assumes "which \<noteq> Some KEY_LEFT" "which \<noteq> Some KEY_RIGHT" "which \<noteq> Some KEY_BACKSPACE"
    and "char = None \<or> char = Some []"
  shows "handleInput which char s =
     Some (case which of None \<Rightarrow> [] | Some k \<Rightarrow> if k = 0 then [] else [KeyPressed k], s)"
  using assms by (auto simp: handleInput_def)

theorem handleInput_unrecognized_witness:
  "Some 65 \<noteq> Some KEY_LEFT \<and> Some 65 \<noteq> Some KEY_RIGHT \<and> Some 65 \<noteq> Some KEY_BACKSPACE
   \<and> handleInput (Some 65) None \<lparr>val = ''ab'', cursor = 1\<rparr>
       = Some ([KeyPressed 65], \<lparr>val = ''ab'', cursor = 1\<rparr>)"
  using handleInput_unrecognized [of "Some 65" None "\<lparr>val = ''ab'', cursor = 1\<rparr>"]
  by (simp add: KEY_LEFT_def KEY_RIGHT_def KEY_BACKSPACE_def)

section \<open>Inserting text\<close>

text \<open>
  Claim C5. For a cursor \<open>c\<close> with \<open>- 1 \<le> c \<le> length\<close> and any text, \<^verbatim>\<open>insert\<close>
  lengthens the text by the length of the inserted text and moves the cursor to
  \<open>c\<close> plus that length; from the sentinel the text is prepended and the new cursor
  is the length of the inserted text minus one.
\<close>

theorem insert_length_cursor:
  assumes "- 1 \<le> cursor s" and "cursor s \<le> int (length (val s))"
  shows "length (val (insert_text text s)) = length (val s) + length text
     \<and> cursor (insert_text text s) = cursor s + int (length text)
     \<and> (cursor s = - 1 \<longrightarrow>
          val (insert_text text s) = text @ val s
          \<and> cursor (insert_text text s) = int (length text) - 1)"
  using assms by (auto simp: insert_text_def insertBetween_def Let_def)

theorem insert_length_cursor_witness:
  "length (val (insert_text ''xy'' \<lparr>val = ''ab'', cursor = - 1\<rparr>)) = 4
   \<and> cursor (insert_text ''xy'' \<lparr>val = ''ab'', cursor = - 1\<rparr>) = 1
   \<and> val (insert_text ''xy'' \<lparr>val = ''ab'', cursor = - 1\<rparr>) = ''xyab''"
  using insert_length_cursor [of "\<lparr>val = ''ab'', cursor = - 1\<rparr>" "''xy''"]
  by simp

section \<open>Erasing at the start of the text\<close>

lemma erase_at_zero:
  "erase \<lparr>val = v, cursor = 0\<rparr> = Some \<lparr>val = butlast v @ v, cursor = int (length v - 1)\<rparr>"
proof -
  have "nat (max (int (length v) - 1) 0) = length v - 1" by (cases v) auto
  then show ?thesis
    by (simp add: erase_def idx_def slice_def sliceFrom_def relIndex_def butlast_conv_take)
qed

text \<open>The state with the cursor at 0 in front of two characters is reached by typing
  them and pressing the left arrow twice; backspace then runs \<^verbatim>\<open>erase\<close>.\<close>

lemma zero_reachable:
  "handleInput None (Some ''a'') initial = Some ([], \<lparr>val = ''a'', cursor = 1\<rparr>)
   \<and> handleInput None (Some ''b'') \<lparr>val = ''a'', cursor = 1\<rparr> = Some ([], \<lparr>val = ''ab'', cursor = 2\<rparr>)
   \<and> handleInput (Some KEY_LEFT) None \<lparr>val = ''ab'', cursor = 2\<rparr> = Some ([], \<lparr>val = ''ab'', cursor = 1\<rparr>)
   \<and> handleInput (Some KEY_LEFT) None \<lparr>val = ''ab'', cursor = 1\<rparr> = Some ([], \<lparr>val = ''ab'', cursor = 0\<rparr>)
   \<and> handleInput (Some KEY_BACKSPACE) None \<lparr>val = ''ab'', cursor = 0\<rparr> = Some ([], \<lparr>val = ''aab'', cursor = 1\<rparr>)"
  by (simp add: handleInput_def initial_def KEY_LEFT_def KEY_RIGHT_def KEY_BACKSPACE_def
        insert_text_def insertBetween_def updateCursor_def idx_def erase_at_zero)

text \<open>
  Claim C2 says that \<^verbatim>\<open>erase\<close> with the cursor at 0 changes nothing. The character
  before the cursor is \<^verbatim>\<open>value[-1]\<close>, undefined, so the ordinary branch runs:
  \<^verbatim>\<open>value.slice(0, -1)\<close> is the text without its last character and
  \<^verbatim>\<open>value.slice(0)\<close> is the whole text. On \<^verbatim>\<open>"ab"\<close> the result is \<^verbatim>\<open>"aab"\<close>
  with the cursor at 1.
\<close>

theorem erase_at_zero_duplicates:
  "erase \<lparr>val = ''ab'', cursor = 0\<rparr> = Some \<lparr>val = ''aab'', cursor = 1\<rparr>"
  by (simp add: erase_def idx_def slice_def sliceFrom_def relIndex_def)

section \<open>Locating a command\<close>

lemma slice_prefix: "0 \<le> k \<Longrightarrow> slice v 0 k = take (nat k) v"
  by (simp add: slice_def relIndex_def Let_def min_def)

lemma sliceFrom_suffix: "0 \<le> k \<Longrightarrow> sliceFrom v k = drop (nat k) v"
  by (simp add: sliceFrom_def relIndex_def min_def)

lemma findCommandAt_returns:
  assumes "- 1 \<le> position"
  shows "\<exists>co. findCommandAt position s = Some co
     \<and> (case start co of None \<Rightarrow> True
         | Some k \<Rightarrow> 0 \<le> k \<and> k \<le> position \<and> idx (val s) k = Some backslash)
     \<and> position \<le> finish co
     \<and> (closeScan (val s) (position - 1) = (Some (finish co), finish co)
         \<or> closeScan (val s) (position - 1) = (None, finish co))"
proof -
  obtain found r where a: "backScan (val s) (int (nat (position + 1))) = Some (found, r)"
      "r < int (nat (position + 1))"
      "found \<longrightarrow> 0 \<le> r \<and> idx (val s) r = Some backslash"
    using backScan_nat[of "val s" "nat (position + 1)"] by blast
  have b: "backScan (val s) (position + 1) = Some (found, r)" using a(1) assms by simp
  obtain e j where c: "closeScan (val s) (position - 1) = (e, j)" by (cases "closeScan (val s) (position - 1)")
  have d: "(case e of Some k \<Rightarrow> k = j | None \<Rightarrow> True) \<and> position - 1 < j"
    using closeScan_spec[OF c] by (auto split: option.splits)
  show ?thesis using a(2,3) assms b c d
    by (cases e) (auto simp: findCommandAt_def)
qed

text \<open>
  Claim C3 says that the end of the located span is the first index \<open>i \<ge> position - 1\<close>
  that holds a closing brace not followed by an opening one. The loop starts its counter
  at \<open>position - 1\<close> but increments it before the body reads \<^verbatim>\<open>value[i]\<close>, so the first
  index it looks at is \<open>position\<close>. On the text \<^verbatim>\<open>\sqrt{2}\<close> and position 8 the brace at
  index 7 satisfies the claim's condition, and the code returns 9.
\<close>

theorem findCommandAt_finish_counterexample:
  "closes (backslash # ''sqrt{2}'') 7 \<and> (8::int) - 1 \<le> 7
   \<and> findCommandAt 8 \<lparr>val = backslash # ''sqrt{2}'', cursor = 8\<rparr>
        = Some \<lparr>start = Some 0, finish = 9\<rparr>"
  by (simp add: closes_def findCommandAt_def backScan.simps closeScan.simps idx_def)

text \<open>
  Claim C3, amended. For every text and every position \<open>\<ge> - 1\<close> the locator returns, and
  the end it returns is the first index \<open>i \<ge> position\<close> that holds a closing brace not
  followed by an opening one; when there is no such index the end is the value of the
  loop counter on exit, \<open>length + 1\<close> (or \<open>position\<close>, when that is larger).
\<close>

theorem findCommandAt_finish:
  assumes "- 1 \<le> position"
  shows "\<exists>co. findCommandAt position s = Some co
     \<and> position \<le> finish co
     \<and> (\<forall>k. position \<le> k \<and> k < finish co \<longrightarrow> \<not> closes (val s) k)
     \<and> (closes (val s) (finish co)
        \<or> (finish co = max position (int (length (val s)) + 1)
            \<and> (\<forall>k. position \<le> k \<longrightarrow> \<not> closes (val s) k)))"
proof -
  obtain co where co: "findCommandAt position s = Some co"
     and cs: "closeScan (val s) (position - 1) = (Some (finish co), finish co)
         \<or> closeScan (val s) (position - 1) = (None, finish co)"
    using findCommandAt_returns[OF assms, of s] by blast
  from cs have "position \<le> finish co
     \<and> (\<forall>k. position \<le> k \<and> k < finish co \<longrightarrow> \<not> closes (val s) k)
     \<and> (closes (val s) (finish co)
        \<or> (finish co = max position (int (length (val s)) + 1)
            \<and> (\<forall>k. position \<le> k \<longrightarrow> \<not> closes (val s) k)))"
  proof
    assume "closeScan (val s) (position - 1) = (Some (finish co), finish co)"
    from closeScan_spec[OF this] show ?thesis by auto
  next
    assume "closeScan (val s) (position - 1) = (None, finish co)"
    from closeScan_spec[OF this] show ?thesis by auto
  qed
  with co show ?thesis by blast
qed

theorem findCommandAt_finish_witness:
  "\<exists>co. findCommandAt 3 \<lparr>val = backslash # ''sqrt{2}'', cursor = 0\<rparr> = Some co
     \<and> 3 \<le> finish co
     \<and> (\<forall>k. 3 \<le> k \<and> k < finish co \<longrightarrow> \<not> closes (backslash # ''sqrt{2}'') k)
     \<and> (closes (backslash # ''sqrt{2}'') (finish co)
        \<or> (finish co = max 3 (int (length (backslash # ''sqrt{2}'')) + 1)
            \<and> (\<forall>k. 3 \<le> k \<longrightarrow> \<not> closes (backslash # ''sqrt{2}'') k)))"
  using findCommandAt_finish [of 3 "\<lparr>val = backslash # ''sqrt{2}'', cursor = 0\<rparr>"]
  by simp

section \<open>Erasing a command\<close>

text \<open>
  Claim C4. When the character before the cursor is an opening or a closing brace,
  \<^verbatim>\<open>erase\<close> removes the located span from \<open>start\<close> to \<open>end\<close> inclusive and sets the cursor
  to \<open>start\<close>, the length of the prefix that is kept (a \<open>start\<close> that was not found counts
  as 0, as \<^verbatim>\<open>slice(0, null)\<close> does). On \<^verbatim>\<open>\sqrt{2}\<close> with the cursor at 8 the result
  is the empty text and the cursor 0.
\<close>

theorem erase_command:
  assumes "idx (val s) (cursor s - 1) = Some CHR ''{'' \<or> idx (val s) (cursor s - 1) = Some CHR ''}''"
  shows "(\<exists>co. findCommandAt (cursor s) s = Some co
     \<and> (case start co of None \<Rightarrow> True | Some k \<Rightarrow> 0 \<le> k \<and> k \<le> cursor s)
     \<and> cursor s \<le> finish co
     \<and> erase s =
         Some \<lparr>val = take (case start co of None \<Rightarrow> 0 | Some k \<Rightarrow> nat k) (val s)
                      @ drop (nat (finish co) + 1) (val s),
               cursor = (case start co of None \<Rightarrow> 0 | Some k \<Rightarrow> k)\<rparr>)
   \<and> erase \<lparr>val = backslash # ''sqrt{2}'', cursor = 8\<rparr> = Some \<lparr>val = [], cursor = 0\<rparr>"
proof
  have c: "1 \<le> cursor s" "cursor s \<le> int (length (val s))"
    using assms by (auto simp: idx_def split: if_splits)
  then have "- 1 \<le> cursor s" by simp
  from findCommandAt_returns[OF this, of s]
  obtain co where co: "findCommandAt (cursor s) s = Some co"
    and st: "case start co of None \<Rightarrow> True
         | Some k \<Rightarrow> 0 \<le> k \<and> k \<le> cursor s \<and> idx (val s) k = Some backslash"
    and fi: "cursor s \<le> finish co" by auto
  have before: "slice (val s) 0 (case start co of None \<Rightarrow> 0 | Some k \<Rightarrow> k)
       = take (case start co of None \<Rightarrow> 0 | Some k \<Rightarrow> nat k) (val s)"
    using st by (auto simp: slice_prefix split: option.splits)
  have len: "int (length (take (case start co of None \<Rightarrow> 0 | Some k \<Rightarrow> nat k) (val s)))
       = (case start co of None \<Rightarrow> 0 | Some k \<Rightarrow> k)"
    using st c by (auto split: option.splits)
  have after: "sliceFrom (val s) (finish co + 1) = drop (nat (finish co) + 1) (val s)"
    using fi c by (simp add: sliceFrom_suffix nat_add_distrib)
  have "erase s = Some \<lparr>val = take (case start co of None \<Rightarrow> 0 | Some k \<Rightarrow> nat k) (val s)
                      @ drop (nat (finish co) + 1) (val s),
               cursor = (case start co of None \<Rightarrow> 0 | Some k \<Rightarrow> k)\<rparr>"
    using assms co before after len by (auto simp: erase_def Let_def)
  then show "\<exists>co. findCommandAt (cursor s) s = Some co
     \<and> (case start co of None \<Rightarrow> True | Some k \<Rightarrow> 0 \<le> k \<and> k \<le> cursor s)
     \<and> cursor s \<le> finish co
     \<and> erase s =
         Some \<lparr>val = take (case start co of None \<Rightarrow> 0 | Some k \<Rightarrow> nat k) (val s)
                      @ drop (nat (finish co) + 1) (val s),
               cursor = (case start co of None \<Rightarrow> 0 | Some k \<Rightarrow> k)\<rparr>"
    using co st fi by (auto split: option.splits)
next
  show "erase \<lparr>val = backslash # ''sqrt{2}'', cursor = 8\<rparr> = Some \<lparr>val = [], cursor = 0\<rparr>"
    by (simp add: erase_def findCommandAt_def backScan.simps closeScan.simps idx_def
          slice_def sliceFrom_def relIndex_def)
qed

theorem erase_command_witness:
  "findCommandAt 4 \<lparr>val = ''a'' @ backslash # ''b{c}d'', cursor = 4\<rparr>
      = Some \<lparr>start = Some 1, finish = 5\<rparr>
   \<and> erase \<lparr>val = ''a'' @ backslash # ''b{c}d'', cursor = 4\<rparr> = Some \<lparr>val = ''ad'', cursor = 1\<rparr>"
  using erase_command [of "\<lparr>val = ''a'' @ backslash # ''b{c}d'', cursor = 4\<rparr>"]
  by (simp add: findCommandAt_def backScan.simps closeScan.simps idx_def)

section \<open>Inserting a character and erasing it again\<close>

text \<open>
  Claim C7 says that inserting one character that is not a brace and erasing again
  gives back the text and the cursor, for every cursor in range. From the sentinel
  \<open>- 1\<close>, which belongs to the cursor's domain and is reached on the text \<^verbatim>\<open>{\<close> by a
  move to the left, \<^verbatim>\<open>insert\<close> leaves the cursor at 0, in front of the new character,
  and \<^verbatim>\<open>erase\<close> does not remove it.
\<close>

theorem insert_erase_roundtrip_counterexample:
  "erase (insert_text ''x'' \<lparr>val = ''{'', cursor = - 1\<rparr>) = Some \<lparr>val = ''xx{'', cursor = 1\<rparr>
   \<and> erase (insert_text ''x'' \<lparr>val = ''{'', cursor = - 1\<rparr>) \<noteq> Some \<lparr>val = ''{'', cursor = - 1\<rparr>"
  by (simp add: insert_text_def erase_def idx_def slice_def sliceFrom_def relIndex_def)

text \<open>
  Claim C7, amended. For every cursor \<open>c\<close> with \<open>0 \<le> c \<le> length\<close> and every character
  that is neither brace, \<^verbatim>\<open>insert\<close> of that character followed by \<^verbatim>\<open>erase\<close> returns the
  original text and cursor.
\<close>

theorem insert_erase_roundtrip:
  assumes "0 \<le> cursor s" and "cursor s \<le> int (length (val s))"
    and "ch \<noteq> CHR ''{''" and "ch \<noteq> CHR ''}''"
  shows "erase (insert_text [ch] s) = Some s"
proof -
  let ?c = "cursor s" and ?v = "val s"
  let ?s1 = "insert_text [ch] s"
  have v1: "val ?s1 = take (nat ?c) ?v @ [ch] @ drop (nat ?c) ?v" and c1: "cursor ?s1 = ?c + 1"
    using assms(1) by (auto simp: insert_text_def insertBetween_def Let_def)
  have at: "idx (val ?s1) ?c = Some ch"
    using assms(1,2) by (simp add: v1 idx_def nth_append)
  have b: "slice (val ?s1) 0 ?c = take (nat ?c) ?v"
    using assms(1,2) by (simp add: slice_prefix v1)
  have a: "sliceFrom (val ?s1) (?c + 1) = drop (nat ?c) ?v"
    using assms(1,2) by (simp add: sliceFrom_suffix v1 nat_add_distrib)
  have "erase ?s1 = Some \<lparr>val = take (nat ?c) ?v @ drop (nat ?c) ?v, cursor = int (length (take (nat ?c) ?v))\<rparr>"
    using at assms(3,4) a b by (simp add: erase_def c1 Let_def)
  then show ?thesis using assms(1,2) by simp
qed

theorem insert_erase_roundtrip_witness:
  "erase (insert_text ''x'' \<lparr>val = ''ab'', cursor = 1\<rparr>) = Some \<lparr>val = ''ab'', cursor = 1\<rparr>"
  using insert_erase_roundtrip [of "\<lparr>val = ''ab'', cursor = 1\<rparr>" "CHR ''x''"]
  by simp

section \<open>Inserting a command\<close>

lemma insertCommand_splice:
  assumes "0 \<le> cursor s" and "cursor s \<le> int (length (val s))" and "1 \<le> blockCount"
  shows "\<exists>s'. insertCommand command blockCount s = Inr s'
       \<and> val s' = take (nat (cursor s)) (val s) @ command @ ''{'' @ ''}''
                   @ concat (replicate (nat (blockCount - 1)) ''{}'') @ drop (nat (cursor s)) (val s)
       \<and> cursor s' = cursor s + int (length command) + 1
       \<and> idx (val s') (cursor s' - 1) = Some CHR ''{''
       \<and> idx (val s') (cursor s') = Some CHR ''}''"
proof -
  let ?c = "nat (cursor s)" and ?v = "val s"
  let ?s1 = "insert_text (command @ ''{'') s"
  let ?blocks = "''}'' @ concat (replicate (nat (blockCount - 1)) ''{}'')"
  have v1: "val ?s1 = take ?c ?v @ command @ ''{'' @ drop ?c ?v"
    and c1: "cursor ?s1 = cursor s + int (length command) + 1"
    using assms(1) by (auto simp: insert_text_def insertBetween_def Let_def)
  have l: "length (take ?c ?v @ command @ ''{'') = nat (cursor ?s1)"
    using assms(1,2) by (simp add: c1 nat_add_distrib)
  have tk: "take (nat (cursor ?s1)) (val ?s1) = take ?c ?v @ command @ ''{''"
    using l by (metis append.assoc append_eq_conv_conj v1)
  have dr: "drop (nat (cursor ?s1)) (val ?s1) = drop ?c ?v"
    using l by (metis append.assoc append_eq_conv_conj v1)
  have ib: "insertBetween (val ?s1) (cursor ?s1) ?blocks
       = (take ?c ?v @ command @ ''{'') @ ?blocks @ drop ?c ?v"
    using assms(1) c1 tk dr by (simp add: insertBetween_def)
  have r: "insertCommand command blockCount s
       = Inr \<lparr>val = (take ?c ?v @ command @ ''{'') @ ?blocks @ drop ?c ?v, cursor = cursor ?s1\<rparr>"
    using assms(3) ib by (simp add: insertCommand_def Let_def)
  have p1: "cursor ?s1 - 1 = int (length (take ?c ?v @ command))"
    and p2: "cursor ?s1 = int (length (take ?c ?v @ command @ ''{''))"
    using assms(1,2) c1 by simp_all
  have i1: "idx ((take ?c ?v @ command @ ''{'') @ ?blocks @ drop ?c ?v) (cursor ?s1 - 1) = Some CHR ''{''"
    unfolding p1
    using idx_append_length[of "take ?c ?v @ command" "CHR ''{''" "?blocks @ drop ?c ?v"] by simp
  have i2: "idx ((take ?c ?v @ command @ ''{'') @ ?blocks @ drop ?c ?v) (cursor ?s1) = Some CHR ''}''"
    unfolding p2
    using idx_append_length[of "take ?c ?v @ command @ ''{''" "CHR ''}''"
        "concat (replicate (nat (blockCount - 1)) ''{}'') @ drop ?c ?v"] by simp
  show "\<exists>s'. insertCommand command blockCount s = Inr s'
       \<and> val s' = take (nat (cursor s)) (val s) @ command @ ''{'' @ ''}''
                   @ concat (replicate (nat (blockCount - 1)) ''{}'') @ drop (nat (cursor s)) (val s)
       \<and> cursor s' = cursor s + int (length command) + 1
       \<and> idx (val s') (cursor s' - 1) = Some CHR ''{''
       \<and> idx (val s') (cursor s') = Some CHR ''}''"
    using r c1 i1 i2 by simp
qed

text \<open>The sentinel is reached from the initial state by typing an opening brace and
  pressing the left arrow.\<close>

lemma sentinel_reachable:
  "handleInput None (Some ''{'') initial = Some ([], \<lparr>val = ''{'', cursor = 1\<rparr>)
   \<and> handleInput (Some KEY_LEFT) None \<lparr>val = ''{'', cursor = 1\<rparr> = Some ([], \<lparr>val = ''{'', cursor = - 1\<rparr>)"
  by (simp add: handleInput_def initial_def KEY_LEFT_def KEY_RIGHT_def KEY_BACKSPACE_def
        insert_text_def insertBetween_def updateCursor_def idx_def backScan_0)

text \<open>
  Claim C6 says that \<^verbatim>\<open>insertCommand\<close> in general leaves the cursor at the start of the
  first empty block. From the sentinel \<open>- 1\<close>, \<^verbatim>\<open>insert\<close> prepends the command and its
  opening brace and leaves the cursor on that brace, so the closing brace is spliced in
  before the opening one: on the text \<^verbatim>\<open>{\<close> with the cursor at \<open>- 1\<close> the result is
  \<^verbatim>\<open>\sqrt}{{\<close> with the cursor at 5, and the character before the cursor is no
  opening brace.
\<close>

theorem insertCommand_sentinel_counterexample:
  "insertCommand (backslash # ''sqrt'') 1 \<lparr>val = ''{'', cursor = - 1\<rparr>
      = Inr \<lparr>val = backslash # ''sqrt}{{'', cursor = 5\<rparr>
   \<and> idx (backslash # ''sqrt}{{'') (5 - 1) \<noteq> Some CHR ''{''"
  by (simp add: insertCommand_def insert_text_def insertBetween_def idx_def)

text \<open>
  Claim C6, amended. For a cursor \<open>c\<close> with \<open>0 \<le> c \<le> length\<close> and a block count of at
  least 1, \<^verbatim>\<open>insertCommand\<close> splices the command, an opening brace, a closing brace and
  \<open>blockCount - 1\<close> copies of \<^verbatim>\<open>{}\<close> into the text at \<open>c\<close>, and leaves the cursor
  at \<open>c\<close> plus the length of the command plus one: just after the opening brace of the
  first block and on its closing brace. On the empty text with the cursor at 0,
  \<^verbatim>\<open>insertCommand("\\sqrt", 1)\<close> gives \<^verbatim>\<open>\sqrt{}\<close> and the cursor 6.
\<close>

theorem insertCommand_blocks:
  assumes "0 \<le> cursor s" and "cursor s \<le> int (length (val s))" and "1 \<le> blockCount"
  shows "(\<exists>s'. insertCommand command blockCount s = Inr s'
       \<and> val s' = take (nat (cursor s)) (val s) @ command @ ''{'' @ ''}''
                   @ concat (replicate (nat (blockCount - 1)) ''{}'') @ drop (nat (cursor s)) (val s)
       \<and> cursor s' = cursor s + int (length command) + 1
       \<and> idx (val s') (cursor s' - 1) = Some CHR ''{''
       \<and> idx (val s') (cursor s') = Some CHR ''}'')
     \<and> insertCommand (backslash # ''sqrt'') 1 initial = Inr \<lparr>val = backslash # ''sqrt{}'', cursor = 6\<rparr>"
proof
  show "\<exists>s'. insertCommand command blockCount s = Inr s'
       \<and> val s' = take (nat (cursor s)) (val s) @ command @ ''{'' @ ''}''
                   @ concat (replicate (nat (blockCount - 1)) ''{}'') @ drop (nat (cursor s)) (val s)
       \<and> cursor s' = cursor s + int (length command) + 1
       \<and> idx (val s') (cursor s' - 1) = Some CHR ''{''
       \<and> idx (val s') (cursor s') = Some CHR ''}''"
    using assms by (rule insertCommand_splice)
next
  show "insertCommand (backslash # ''sqrt'') 1 initial = Inr \<lparr>val = backslash # ''sqrt{}'', cursor = 6\<rparr>"
    by (simp add: insertCommand_def insert_text_def insertBetween_def initial_def)
qed

theorem insertCommand_blocks_witness:
  "insertCommand (backslash # ''frac'') 2 \<lparr>val = ''ab'', cursor = 1\<rparr>
     = Inr \<lparr>val = ''a'' @ backslash # ''frac{}{}b'', cursor = 7\<rparr>"
  using insertCommand_blocks [of "\<lparr>val = ''ab'', cursor = 1\<rparr>" 2 "backslash # ''frac''"]
  by (auto simp: idx_def)

section \<open>Positions inside a command name\<close>












section \<open>Moving right onto an opening brace\<close>

lemma opensBlock_prev:
  assumes "opensBlock v b"
  shows "1 \<le> b \<and> idx v (b - 1) \<noteq> Some backslash \<and> idx v (b - 1) \<noteq> Some CHR ''{'' \<and> idx v b = Some CHR ''{''"
proof -
  from assms have b: "idx v b = Some CHR ''{''"
    and tw: "takeWhile isNameChar (rev (take (nat b) v)) \<noteq> []" by (simp_all add: opensBlock_def)
  from b have r: "0 \<le> b" "nat b < length v" by (auto simp: idx_Some)
  from tw have ne: "rev (take (nat b) v) \<noteq> []" by auto
  then have pos: "nat b \<noteq> 0" by auto
  from tw ne have "isNameChar (hd (rev (take (nat b) v)))"
    by (cases "rev (take (nat b) v)") (auto split: if_splits)
  moreover have "hd (rev (take (nat b) v)) = v ! (nat b - 1)"
    using ne pos r(2) by (simp add: hd_rev last_conv_nth min_def)
  ultimately have nc: "isNameChar (v ! (nat b - 1))" by simp
  have i: "idx v (b - 1) = Some (v ! (nat b - 1))"
    using idx_in[of "b - 1" v] pos r by (simp add: nat_diff_distrib)
  show ?thesis using nc i pos r(1) b by (auto simp: isNameChar_def)
qed

lemma updateCursor_right_unfold:
  "updateCursor 1 s =
     Some (s\<lparr>cursor :=
        (let next2 = (if idx (val s) (cursor s) = Some backslash
                      then braceScan (val s) (cursor s + 1) + 1 else cursor s + 1)
         in if idx (val s) next2 = Some CHR ''{'' then next2 + 1 else next2)\<rparr>)"
  by (simp add: updateCursor_def Let_def)

text \<open>
  Claim C8. A move to the right never leaves the cursor on the opening brace of a
  command block, a brace that follows a backslash and a name: when the move would land
  on such a brace the cursor ends one position further, at the old cursor plus two. The
  cursor can rest on an opening brace only directly behind another opening brace.
\<close>

theorem updateCursor_right_off_brace:
  "\<exists>s'. updateCursor 1 s = Some s' \<and> val s' = val s
      \<and> \<not> opensBlock (val s) (cursor s')
      \<and> (opensBlock (val s) (cursor s + 1) \<longrightarrow> cursor s' = cursor s + 2)
      \<and> (idx (val s) (cursor s') = Some CHR ''{'' \<longrightarrow> idx (val s) (cursor s' - 1) = Some CHR ''{'')"
proof -
  let ?v = "val s"
  define next2 where "next2 = (if idx ?v (cursor s) = Some backslash
                      then braceScan ?v (cursor s + 1) + 1 else cursor s + 1)"
  define next3 where "next3 = (if idx ?v next2 = Some CHR ''{'' then next2 + 1 else next2)"
  have u: "updateCursor 1 s = Some (s\<lparr>cursor := next3\<rparr>)"
    by (simp add: updateCursor_right_unfold next2_def next3_def Let_def)
  have c: "idx ?v next3 = Some CHR ''{'' \<longrightarrow> idx ?v (next3 - 1) = Some CHR ''{''"
    by (simp add: next3_def)
  then have a: "\<not> opensBlock ?v next3"
    using opensBlock_prev[of ?v next3] by blast
  have b: "opensBlock ?v (cursor s + 1) \<longrightarrow> next3 = cursor s + 2"
  proof
    assume "opensBlock ?v (cursor s + 1)"
    from opensBlock_prev[OF this]
    have "idx ?v (cursor s) \<noteq> Some backslash" "idx ?v (cursor s + 1) = Some CHR ''{''" by simp_all
    then show "next3 = cursor s + 2" by (simp add: next3_def next2_def)
  qed
  show ?thesis using u a b c by simp
qed

theorem updateCursor_right_off_brace_witness:
  "opensBlock (backslash # ''ab{c}'') 3
   \<and> updateCursor 1 \<lparr>val = backslash # ''ab{c}'', cursor = 2\<rparr>
        = Some \<lparr>val = backslash # ''ab{c}'', cursor = 4\<rparr>"
proof -
  have o: "opensBlock (backslash # ''ab{c}'') 3"
    by (simp add: opensBlock_def afterBackslash_def isNameChar_def idx_def)
  show ?thesis
    using o updateCursor_right_off_brace [of "\<lparr>val = backslash # ''ab{c}'', cursor = 2\<rparr>"]
    by auto
qed

section \<open>The cursor after each operation\<close>




























end
